theory Spec2Isabelle
  imports Main "HOL-Library.Word"
begin

section \<open>Python strings\<close>

text \<open>
  A Python \<open>str\<close> is a sequence of Unicode code points, and \<open>len\<close>, slicing and the
  regular expressions of \<open>re\<close> count code points. A string is therefore a list of
  code points (natural numbers); \<open>lit\<close> reads an ASCII literal.
\<close>

type_synonym codepoint = nat
type_synonym str = "codepoint list"
type_synonym bytes = "8 word list"

definition lit :: "string \<Rightarrow> str" where
  "lit s = map of_char s"

text \<open>
  The character classes of CPython on the ASCII range: \<open>str.isalnum\<close> holds of the
  digits and the letters, \<open>str.isspace\<close> of TAB, LF, VT, FF, CR, the separators
  \<open>0x1C\<close> to \<open>0x1F\<close> and the space, and \<open>str.lower\<close> moves \<open>A\<close> to \<open>Z\<close> onto
  \<open>a\<close> to \<open>z\<close>.
\<close>

definition ascii_isalnum :: "codepoint \<Rightarrow> bool" where
  "ascii_isalnum c = ((48 \<le> c \<and> c \<le> 57) \<or> (65 \<le> c \<and> c \<le> 90) \<or> (97 \<le> c \<and> c \<le> 122))"

definition ascii_isspace :: "codepoint \<Rightarrow> bool" where
  "ascii_isspace c = ((9 \<le> c \<and> c \<le> 13) \<or> (28 \<le> c \<and> c \<le> 32))"

definition ascii_lower :: "codepoint \<Rightarrow> codepoint" where
  "ascii_lower c = (if 65 \<le> c \<and> c \<le> 90 then c + 32 else c)"

text \<open>
  Beyond ASCII the classes and the lower-casing are those of the Unicode database the
  interpreter was built with. The script does not contain them; they are a parameter of
  the model: \<open>uni_isalnum\<close> and \<open>uni_isspace\<close> classify a code point from 128 on, and
  \<open>uni_lower\<close> is \<open>str.lower\<close> on a string that holds such a code point (lower-casing
  is not character by character there: it may change the length and depends on the
  context).
\<close>

record unicode_db =
  uni_isalnum :: "codepoint \<Rightarrow> bool"
  uni_isspace :: "codepoint \<Rightarrow> bool"
  uni_lower :: "str \<Rightarrow> str"

definition isalnum :: "unicode_db \<Rightarrow> codepoint \<Rightarrow> bool" where
  "isalnum U c = (if c < 128 then ascii_isalnum c else uni_isalnum U c)"

definition isspace :: "unicode_db \<Rightarrow> codepoint \<Rightarrow> bool" where
  "isspace U c = (if c < 128 then ascii_isspace c else uni_isspace U c)"

definition lower :: "unicode_db \<Rightarrow> str \<Rightarrow> str" where
  "lower U s = (if list_all (\<lambda>c. c < 128) s then map ascii_lower s else uni_lower U s)"

text \<open>\<open>s.strip()\<close>: leading and trailing whitespace removed.\<close>

definition strip :: "unicode_db \<Rightarrow> str \<Rightarrow> str" where
  "strip U s = rev (dropWhile (isspace U) (rev (dropWhile (isspace U) s)))"

text \<open>\<open>s.startswith(p)\<close>.\<close>

fun startswith :: "str \<Rightarrow> str \<Rightarrow> bool" where
  "startswith s [] = True"
| "startswith [] (p # ps) = False"
| "startswith (c # cs) (p # ps) = (c = p \<and> startswith cs ps)"

text \<open>\<open>needle in hay\<close> on strings: \<open>needle\<close> occurs in \<open>hay\<close> as a contiguous run.\<close>

fun py_in :: "str \<Rightarrow> str \<Rightarrow> bool" where
  "py_in needle [] = (needle = [])"
| "py_in needle (c # cs) = (startswith (c # cs) needle \<or> py_in needle cs)"

subsection \<open>The two regular expressions of the script\<close>

text \<open>
  \<open>\w\<close> of a \<open>str\<close> pattern is an alphanumeric code point or the underscore, \<open>\s\<close> is
  \<open>str.isspace\<close>. The class \<open>[^\w\s-]\<close> of line 134 is every code point that is
  none of these and not the hyphen, and \<open>re.sub\<close> with the empty replacement deletes
  each of them.
\<close>

definition re_word :: "unicode_db \<Rightarrow> codepoint \<Rightarrow> bool" where
  "re_word U c = (isalnum U c \<or> c = 95)"

definition unsafe_class :: "unicode_db \<Rightarrow> codepoint \<Rightarrow> bool" where
  "unsafe_class U c = (\<not> (re_word U c \<or> isspace U c \<or> c = 45))"

definition re_sub_unsafe :: "unicode_db \<Rightarrow> str \<Rightarrow> str" where
  "re_sub_unsafe U s = filter (\<lambda>c. \<not> unsafe_class U c) s"

text \<open>
  \<open>re.compile(r'\.pdf', re.I).search(s)\<close> of line 68: a dot followed by \<open>p\<close>,
  \<open>d\<close>, \<open>f\<close> in either case, anywhere in \<open>s\<close>. No code point other than the two
  ASCII cases folds to one of these three letters.
\<close>

fun pdf_search :: "str \<Rightarrow> bool" where
  "pdf_search (a # b # c # d # rest) =
     ((a = 46 \<and> (b = 112 \<or> b = 80) \<and> (c = 100 \<or> c = 68) \<and> (d = 102 \<or> d = 70))
      \<or> pdf_search (b # c # d # rest))"
| "pdf_search _ = False"

section \<open>Data model\<close>

text \<open>The constants of lines 16 to 30. \<open>DELHI_COURTS\<close> maps a display name to a slug.\<close>

definition DELHI_BASE_URL :: str where
  "DELHI_BASE_URL = lit ''https://newdelhi.dcourts.gov.in''"

definition DELHI_CAUSELIST_URL :: str where
  "DELHI_CAUSELIST_URL = DELHI_BASE_URL @ lit ''/cause-list-%e2%81%84-daily-board/''"

definition DELHI_COURTS :: "(str \<times> str) list" where
  "DELHI_COURTS =
     [(lit ''Patiala House Court Complex'', lit ''patiala-house''),
      (lit ''Tis Hazari Court'', lit ''tis-hazari''),
      (lit ''Karkardooma Court'', lit ''karkardooma''),
      (lit ''Delhi High Court'', lit ''dhc''),
      (lit ''Special CBI Courts'', lit ''cbi-courts'')]"

text \<open>
  An \<open><a>\<close> element of the parsed page: its \<open>href\<close> attribute, if it has one, and the
  text nodes below it in document order. \<open>get_text(strip=True)\<close> strips each text
  node, drops the ones that become empty and joins the rest with no separator.
\<close>

record anchor =
  href :: "str option"
  strings :: "str list"

definition get_text :: "unicode_db \<Rightarrow> anchor \<Rightarrow> str" where
  "get_text U a = concat (filter (\<lambda>s. s \<noteq> []) (map (strip U) (strings a)))"

text \<open>The dictionaries of lines 85 to 89 and 141 to 145.\<close>

record pdf_link =
  name :: str
  url :: str
  judge :: str

record downloaded_file =
  judge :: str
  filepath :: str
  filename :: str

text \<open>
  The \<open>datetime.date\<close> of the date picker, and \<open>strftime("%d-%m-%Y")\<close> on it: day
  and month zero-padded to two digits, the year to four.
\<close>

record date =
  year :: nat
  month :: nat
  day :: nat

fun decimal :: "nat \<Rightarrow> str" where
  "decimal n = (if n < 10 then [48 + n] else decimal (n div 10) @ [48 + n mod 10])"

declare decimal.simps [simp del]

definition zfill :: "nat \<Rightarrow> str \<Rightarrow> str" where
  "zfill k s = replicate (k - length s) 48 @ s"

definition strftime :: "date \<Rightarrow> str" where
  "strftime d = zfill 2 (decimal (day d)) @ lit ''-'' @ zfill 2 (decimal (month d))
                 @ lit ''-'' @ zfill 4 (decimal (year d))"

section \<open>The outside world\<close>

text \<open>
  What \<open>requests.get\<close> can come back with: an exception (a transport failure or a
  timeout) or a response with a status code and a body. \<open>raise_for_status\<close> raises on a
  status from 400 to 599, and a response is truthy (\<open>Response.ok\<close>) when it would not
  raise.
\<close>

record response =
  status_code :: int
  content :: bytes

datatype http_outcome = ConnectionError | Timeout | Responded response

definition raises_for_status :: "response \<Rightarrow> bool" where
  "raises_for_status r = (400 \<le> status_code r \<and> status_code r < 600)"

definition response_ok :: "response \<Rightarrow> bool" where
  "response_ok r = (\<not> raises_for_status r)"

text \<open>
  The environment is what the script does not decide: the Unicode database, the answer of
  the network to the \<open>k\<close>-th request of a run (for its URL and timeout in seconds), the
  anchors BeautifulSoup finds in a body (\<open>None\<close> when the parser raises), and whether
  opening and writing a file succeeds after \<open>k\<close> requests. The state the script changes
  is the sequence of requests sent and the files on disk.
\<close>

record env =
  ucd :: unicode_db
  http_get :: "nat \<Rightarrow> str \<Rightarrow> nat \<Rightarrow> http_outcome"
  find_all_a :: "bytes \<Rightarrow> anchor list option"
  write_ok :: "nat \<Rightarrow> str \<Rightarrow> bool"

record world =
  requested :: "(str \<times> nat) list"
  files :: "str \<rightharpoonup> bytes"

section \<open>The functions of the script\<close>

text \<open>\<open>safe_request\<close>, lines 34 to 41: any exception, also that of \<open>raise_for_status\<close>, gives \<open>None\<close>.\<close>

definition safe_request :: "env \<Rightarrow> str \<Rightarrow> nat \<Rightarrow> world \<Rightarrow> response option \<times> world" where
  "safe_request E u timeout w =
     (let w' = w\<lparr>requested := requested w @ [(u, timeout)]\<rparr> in
      case http_get E (length (requested w)) u timeout of
        ConnectionError \<Rightarrow> (None, w')
      | Timeout \<Rightarrow> (None, w')
      | Responded r \<Rightarrow> if raises_for_status r then (None, w') else (Some r, w'))"

text \<open>Lines 74 to 77, on the stripped \<open>href\<close>.\<close>

definition full_url :: "str \<Rightarrow> str" where
  "full_url h =
     (if startswith h (lit ''http'') then h
      else if startswith h (lit ''/'') then DELHI_BASE_URL @ h
      else DELHI_BASE_URL @ lit ''/'' @ h)"

text \<open>
  The loop of lines 68 to 89 over the anchors of the page, with the list \<open>pdf_links\<close> it
  appends to. \<open>find_all('a', href=...)\<close> keeps an anchor that has an \<open>href\<close> the pattern
  is found in; \<open>continue\<close> is the recursive call with the list unchanged. An empty
  \<open>court_complex\<close> (or \<open>None\<close>) is falsy and switches the filter off.
\<close>

fun collect_pdf_links :: "unicode_db \<Rightarrow> str \<Rightarrow> anchor list \<Rightarrow> pdf_link list \<Rightarrow> pdf_link list" where
  "collect_pdf_links U court_complex [] pdf_links = pdf_links"
| "collect_pdf_links U court_complex (link # rest) pdf_links =
     (case href link of
        None \<Rightarrow> collect_pdf_links U court_complex rest pdf_links
      | Some raw \<Rightarrow>
          if \<not> pdf_search raw then collect_pdf_links U court_complex rest pdf_links
          else
            let h = strip U raw in
            if h = [] then collect_pdf_links U court_complex rest pdf_links
            else
              let link_text = get_text U link in
              if link_text \<noteq> [] then
                if court_complex \<noteq> [] \<and> \<not> py_in (lower U court_complex) (lower U link_text)
                then collect_pdf_links U court_complex rest pdf_links
                else collect_pdf_links U court_complex rest
                       (pdf_links @ [\<lparr>name = link_text, url = full_url h, pdf_link.judge = link_text\<rparr>])
              else collect_pdf_links U court_complex rest pdf_links)"

text \<open>
  \<open>get_pdf_links_for_court_and_date\<close>, lines 57 to 95. The date is a parameter and is
  not used. An exception of the parser is caught by line 93 and gives the empty list.
\<close>

definition get_pdf_links_for_court_and_date ::
    "env \<Rightarrow> date \<Rightarrow> str \<Rightarrow> world \<Rightarrow> pdf_link list \<times> world" where
  "get_pdf_links_for_court_and_date E date_obj court_complex w =
     (case safe_request E DELHI_CAUSELIST_URL 10 w of
        (None, w1) \<Rightarrow> ([], w1)
      | (Some r, w1) \<Rightarrow>
          if \<not> response_ok r then ([], w1)
          else (case find_all_a E (content r) of
                  None \<Rightarrow> ([], w1)
                | Some anchors \<Rightarrow> (collect_pdf_links (ucd E) court_complex anchors [], w1)))"

text \<open>\<open>os.path.join\<close> of two components (POSIX): an absolute second component replaces the first.\<close>

definition os_path_join :: "str \<Rightarrow> str \<Rightarrow> str" where
  "os_path_join a b =
     (if startswith b (lit ''/'') then b
      else if a = [] \<or> last a = 47 then a @ b
      else a @ lit ''/'' @ b)"

text \<open>
  \<open>download_pdf\<close>, lines 97 to 111. A failure to open or write the file is an exception,
  caught by line 110; the model leaves the directory as it was in that case.
\<close>

definition download_pdf :: "env \<Rightarrow> str \<Rightarrow> str \<Rightarrow> world \<Rightarrow> str option \<times> world" where
  "download_pdf E pdf_url fname w =
     (case safe_request E pdf_url 20 w of
        (None, w1) \<Rightarrow> (None, w1)
      | (Some r, w1) \<Rightarrow>
          if \<not> response_ok r then (None, w1)
          else if status_code r = 200 \<and> length (content r) > 1000 then
            (let fpath = os_path_join (lit ''downloaded_pdfs'') fname in
             if write_ok E (length (requested w1)) fpath
             then (Some fpath, w1\<lparr>files := (files w1)(fpath \<mapsto> content r)\<rparr>)
             else (None, w1))
          else (None, w1))"

text \<open>Lines 134 and 135: the sanitised judge label and the file name.\<close>

definition safe_judge :: "unicode_db \<Rightarrow> str \<Rightarrow> str" where
  "safe_judge U judge_name = take 40 (re_sub_unsafe U judge_name)"

definition causelist_filename :: "unicode_db \<Rightarrow> str \<Rightarrow> str \<Rightarrow> str \<Rightarrow> str" where
  "causelist_filename U court_complex judge_name date_str =
     lit ''CauseList_'' @ court_complex @ lit ''_'' @ safe_judge U judge_name
       @ lit ''_'' @ date_str @ lit ''.pdf''"

text \<open>
  The loop of lines 129 to 150 with the list \<open>downloaded_files\<close> it appends to. A path is
  truthy when it is not empty.
\<close>

fun download_loop ::
    "env \<Rightarrow> str \<Rightarrow> str \<Rightarrow> pdf_link list \<Rightarrow> downloaded_file list \<Rightarrow> world
       \<Rightarrow> downloaded_file list \<times> world" where
  "download_loop E court_complex date_str [] downloaded_files w = (downloaded_files, w)"
| "download_loop E court_complex date_str (l # rest) downloaded_files w =
     (let judge_name = pdf_link.judge l;
          fname = causelist_filename (ucd E) court_complex judge_name date_str
      in case download_pdf E (url l) fname w of
           (Some fpath, w1) \<Rightarrow>
             if fpath \<noteq> [] then
               download_loop E court_complex date_str rest
                 (downloaded_files @ [\<lparr>judge = judge_name, filepath = fpath, filename = fname\<rparr>]) w1
             else download_loop E court_complex date_str rest downloaded_files w1
         | (None, w1) \<Rightarrow> download_loop E court_complex date_str rest downloaded_files w1)"

text \<open>\<open>download_all_judges_pdfs\<close>, lines 113 to 159.\<close>

definition download_all_judges_pdfs ::
    "env \<Rightarrow> date \<Rightarrow> str \<Rightarrow> world \<Rightarrow> downloaded_file list \<times> world" where
  "download_all_judges_pdfs E date_obj court_complex w =
     (case get_pdf_links_for_court_and_date E date_obj court_complex w of
        (pdf_links, w1) \<Rightarrow>
          if pdf_links = [] then ([], w1)
          else download_loop E court_complex (strftime date_obj) pdf_links [] w1)"

section \<open>Notions used to state the properties\<close>

text \<open>
  A Unicode database for evaluating the functions on ASCII input, where their result does
  not depend on it: no code point from 128 on is alphanumeric or whitespace, and
  lower-casing leaves a string with such a code point as it is.
\<close>

definition ascii_db :: unicode_db where
  "ascii_db = \<lparr>uni_isalnum = (\<lambda>c. False), uni_isspace = (\<lambda>c. False), uni_lower = (\<lambda>s. s)\<rparr>"


text \<open>
  The specification's file name, with the slug that \<open>DELHI_COURTS\<close> gives for the
  display name in the place of the court.
\<close>

definition spec_filename :: "unicode_db \<Rightarrow> str \<Rightarrow> str \<Rightarrow> str \<Rightarrow> str" where
  "spec_filename U court_complex judge_name date_str =
     (case map_of DELHI_COURTS court_complex of
        None \<Rightarrow> []
      | Some court_slug \<Rightarrow>
          lit ''CauseList_'' @ court_slug @ lit ''_'' @ safe_judge U judge_name
            @ lit ''_'' @ date_str @ lit ''.pdf'')"

text \<open>
  What the link-discovery loop is compared with: the test of \<open>find_all\<close> on an anchor,
  the anchors it keeps for a court complex, and the dictionary built from a kept anchor.
\<close>

definition href_matches :: "anchor \<Rightarrow> bool" where
  "href_matches a = (case href a of None \<Rightarrow> False | Some raw \<Rightarrow> pdf_search raw)"

definition keeps :: "unicode_db \<Rightarrow> str \<Rightarrow> anchor \<Rightarrow> bool" where
  "keeps U court_complex a =
     (href_matches a \<and> get_text U a \<noteq> []
      \<and> py_in (lower U court_complex) (lower U (get_text U a)))"

definition link_of :: "unicode_db \<Rightarrow> anchor \<Rightarrow> pdf_link" where
  "link_of U a =
     \<lparr>name = get_text U a,
      url = (case href a of None \<Rightarrow> [] | Some raw \<Rightarrow> full_url (strip U raw)),
      pdf_link.judge = get_text U a\<rparr>"

text \<open>
  A download is delivered when the \<open>k\<close>-th request is answered with status 200 and more
  than 1000 bytes and the file can then be written; \<open>link_delivered\<close> says so of a link
  paired with the number of its request, and \<open>file_record\<close> is the dictionary appended
  for a delivered link.
\<close>

definition delivered :: "env \<Rightarrow> nat \<Rightarrow> str \<Rightarrow> str \<Rightarrow> bool" where
  "delivered E k u fname =
     (case http_get E k u 20 of
        Responded r \<Rightarrow> status_code r = 200 \<and> length (content r) > 1000
                        \<and> write_ok E (Suc k) (os_path_join (lit ''downloaded_pdfs'') fname)
      | _ \<Rightarrow> False)"

definition link_delivered :: "env \<Rightarrow> str \<Rightarrow> str \<Rightarrow> nat \<times> pdf_link \<Rightarrow> bool" where
  "link_delivered E court_complex date_str kl =
     delivered E (fst kl) (url (snd kl))
       (causelist_filename (ucd E) court_complex (pdf_link.judge (snd kl)) date_str)"

definition file_record :: "env \<Rightarrow> str \<Rightarrow> str \<Rightarrow> pdf_link \<Rightarrow> downloaded_file" where
  "file_record E court_complex date_str l =
     \<lparr>judge = pdf_link.judge l,
      filepath = os_path_join (lit ''downloaded_pdfs'')
                   (causelist_filename (ucd E) court_complex (pdf_link.judge l) date_str),
      filename = causelist_filename (ucd E) court_complex (pdf_link.judge l) date_str\<rparr>"

subsection \<open>A sample run\<close>

text \<open>
  A page with three anchors for Tis Hazari and two for other court complexes, the date
  5 April 2025, and environments over it: \<open>example_env st\<close> answers every request with
  status \<open>st\<close> and 1001 bytes, \<open>small_env n\<close> with status 200 and \<open>n\<close> bytes, and
  \<open>flaky_env\<close> lets the request after the first download time out.
\<close>

definition pdf_body :: bytes where
  "pdf_body = replicate 1001 0"

definition example_page :: "anchor list" where
  "example_page =
     [\<lparr>href = Some (lit ''/docs/j1.pdf''), strings = [lit ''Tis Hazari Court - Judge A'']\<rparr>,
      \<lparr>href = Some (lit ''docs/j2.PDF''), strings = [lit '' TIS HAZARI COURT: Judge B '']\<rparr>,
      \<lparr>href = Some (lit ''/docs/k1.pdf''), strings = [lit ''Karkardooma Court - Judge C'']\<rparr>,
      \<lparr>href = Some (lit ''http://cdn.example/j3.pdf''), strings = [lit ''Judge D, '', lit ''tis hazari court'']\<rparr>,
      \<lparr>href = Some (lit ''/docs/p1.pdf''), strings = [lit ''Patiala House Court Complex'']\<rparr>]"

definition example_env :: "int \<Rightarrow> env" where
  "example_env st =
     \<lparr>ucd = ascii_db,
      http_get = (\<lambda>k u t. Responded \<lparr>status_code = st, content = pdf_body\<rparr>),
      find_all_a = (\<lambda>b. Some example_page),
      write_ok = (\<lambda>k p. True)\<rparr>"

definition small_env :: "nat \<Rightarrow> env" where
  "small_env n = (example_env 200)
     \<lparr>http_get := (\<lambda>k u t. Responded \<lparr>status_code = 200, content = replicate n 0\<rparr>)\<rparr>"

definition flaky_env :: env where
  "flaky_env = (example_env 200)
     \<lparr>http_get := (\<lambda>k u t. if k = 2 then Timeout else Responded \<lparr>status_code = 200, content = pdf_body\<rparr>)\<rparr>"

definition empty_world :: world where
  "empty_world = \<lparr>requested = [], files = Map.empty\<rparr>"

definition example_date :: date where
  "example_date = \<lparr>year = 2025, month = 4, day = 5\<rparr>"

section \<open>Auxiliary facts\<close>

lemmas class_defs = re_sub_unsafe_def unsafe_class_def re_word_def isalnum_def isspace_def
  ascii_isalnum_def ascii_isspace_def

lemmas eval_defs = get_pdf_links_for_court_and_date_def safe_request_def example_env_def
  empty_world_def example_page_def raises_for_status_def response_ok_def get_text_def strip_def
  lower_def ascii_lower_def full_url_def Let_def DELHI_BASE_URL_def ascii_db_def isspace_def ascii_isspace_def lit_def

lemmas run_defs = download_all_judges_pdfs_def download_pdf_def causelist_filename_def
  safe_judge_def os_path_join_def strftime_def zfill_def example_date_def pdf_body_def
  class_defs

lemma decimal_numeral [simp]:
  "decimal (numeral k) = (if numeral k < (10::nat) then [48 + numeral k]
      else decimal (numeral k div 10) @ [48 + numeral k mod 10])"
  by (rule decimal.simps)

lemma strftime_example: "strftime example_date = lit ''05-04-2025''"
  by (simp add: strftime_def zfill_def example_date_def lit_def)

subsection \<open>Strings\<close>


lemma startswith_iff: "startswith s p \<longleftrightarrow> (\<exists>t. s = p @ t)"
  by (induction s p rule: startswith.induct) auto

lemma py_in_iff: "py_in needle hay \<longleftrightarrow> (\<exists>before after. hay = before @ needle @ after)"
proof (induction hay)
  case Nil
  show ?case by auto
next
  case (Cons c cs)
  show ?case
  proof
    assume "py_in needle (c # cs)"
    then consider "startswith (c # cs) needle" | "py_in needle cs" by auto
    then show "\<exists>before after. c # cs = before @ needle @ after"
    proof cases
      case 1
      then obtain t where "c # cs = needle @ t" unfolding startswith_iff by blast
      then have "c # cs = [] @ needle @ t" by simp
      then show ?thesis by blast
    next
      case 2
      then obtain b a where "cs = b @ needle @ a" using Cons.IH by blast
      then have "c # cs = (c # b) @ needle @ a" by simp
      then show ?thesis by blast
    qed
  next
    assume "\<exists>before after. c # cs = before @ needle @ after"
    then obtain b a where ba: "c # cs = b @ needle @ a" by blast
    show "py_in needle (c # cs)"
    proof (cases b)
      case Nil
      with ba have "startswith (c # cs) needle" unfolding startswith_iff by auto
      then show ?thesis by simp
    next
      case (Cons b0 b')
      with ba have "cs = b' @ needle @ a" by simp
      then have "py_in needle cs" using Cons.IH by blast
      then show ?thesis by simp
    qed
  qed
qed

lemma strip_eq_Nil: "strip U s = [] \<longleftrightarrow> (\<forall>c \<in> set s. isspace U c)"
proof -
  have "strip U s = [] \<longleftrightarrow> (\<forall>c \<in> set (dropWhile (isspace U) s). isspace U c)"
    by (simp add: strip_def dropWhile_eq_Nil_conv)
  also have "\<dots> \<longleftrightarrow> dropWhile (isspace U) s = []"
  proof
    assume all: "\<forall>c \<in> set (dropWhile (isspace U) s). isspace U c"
    show "dropWhile (isspace U) s = []"
    proof (rule ccontr)
      assume ne: "dropWhile (isspace U) s \<noteq> []"
      then have "\<not> isspace U (hd (dropWhile (isspace U) s))"
        by (rule hd_dropWhile)
      moreover have "hd (dropWhile (isspace U) s) \<in> set (dropWhile (isspace U) s)"
        using ne by simp
      ultimately show False using all by blast
    qed
  next
    assume e: "dropWhile (isspace U) s = []"
    show "\<forall>c \<in> set (dropWhile (isspace U) s). isspace U c"
      unfolding e by simp
  qed
  also have "\<dots> \<longleftrightarrow> (\<forall>c \<in> set s. isspace U c)"
    by (simp add: dropWhile_eq_Nil_conv)
  finally show ?thesis .
qed

lemma pdf_search_dot: "pdf_search s \<Longrightarrow> 46 \<in> set s"
  by (induction s rule: pdf_search.induct) auto

lemma pdf_search_strip: "pdf_search s \<Longrightarrow> strip U s \<noteq> []"
proof -
  assume "pdf_search s"
  then have "46 \<in> set s" by (rule pdf_search_dot)
  moreover have "\<not> isspace U 46" by (simp add: isspace_def ascii_isspace_def)
  ultimately show ?thesis unfolding strip_eq_Nil by blast
qed

lemma decimal_digits: "c \<in> set (decimal n) \<Longrightarrow> 48 \<le> c \<and> c \<le> 57"
proof (induction n arbitrary: c rule: decimal.induct)
  case (1 n)
  show ?case
  proof (cases "n < 10")
    case True
    with "1.prems" show ?thesis by (simp add: decimal.simps [of n])
  next
    case False
    with "1.prems" have "c \<in> set (decimal (n div 10)) \<or> c = 48 + n mod 10"
      by (auto simp: decimal.simps [of n])
    then show ?thesis
    proof
      assume "c \<in> set (decimal (n div 10))"
      with False "1.IH" show ?thesis by blast
    next
      assume "c = 48 + n mod 10"
      moreover have "n mod 10 < 10" by simp
      ultimately show ?thesis by linarith
    qed
  qed
qed

lemma zfill_set: "c \<in> set (zfill k s) \<Longrightarrow> c = 48 \<or> c \<in> set s"
  by (auto simp: zfill_def)

lemma strftime_chars: "c \<in> set (strftime d) \<Longrightarrow> c = 45 \<or> (48 \<le> c \<and> c \<le> 57)"
proof -
  assume "c \<in> set (strftime d)"
  then consider "c \<in> set (zfill 2 (decimal (day d)))" | "c \<in> set (zfill 2 (decimal (month d)))"
    | "c \<in> set (zfill 4 (decimal (year d)))" | "c = 45"
    by (auto simp: strftime_def lit_def)
  then show ?thesis
    using zfill_set decimal_digits by cases fastforce+
qed

lemma safe_judge_chars:
  "c \<in> set (safe_judge U j) \<Longrightarrow> isalnum U c \<or> c = 95 \<or> isspace U c \<or> c = 45"
proof -
  assume "c \<in> set (safe_judge U j)"
  then have "c \<in> set (re_sub_unsafe U j)"
    unfolding safe_judge_def by (rule in_set_takeD)
  then show ?thesis
    by (simp add: re_sub_unsafe_def unsafe_class_def re_word_def)
qed

lemma safe_judge_no_separator:
  "47 \<notin> set (safe_judge U j) \<and> 92 \<notin> set (safe_judge U j) \<and> 46 \<notin> set (safe_judge U j)"
proof -
  have "\<not> (isalnum U c \<or> c = 95 \<or> isspace U c \<or> c = 45)" if "c = 47 \<or> c = 92 \<or> c = 46" for c
    using that by (auto simp: isalnum_def isspace_def ascii_isalnum_def ascii_isspace_def)
  then show ?thesis
    using safe_judge_chars [of 47 U j] safe_judge_chars [of 92 U j] safe_judge_chars [of 46 U j]
    by blast
qed

lemma court_no_slash: "court \<in> fst ` set DELHI_COURTS \<Longrightarrow> 47 \<notin> set court"
  by (auto simp: DELHI_COURTS_def lit_def)

subsection \<open>Link discovery\<close>

lemma collect_pdf_links_eq:
  "court \<noteq> [] \<Longrightarrow>
   collect_pdf_links U court anchors acc
     = acc @ map (link_of U) (filter (keeps U court) anchors)"
proof (induction anchors arbitrary: acc)
  case Nil
  show ?case by simp
next
  case (Cons a rest)
  show ?case
  proof (cases "href a")
    case None
    then show ?thesis using Cons by (simp add: keeps_def href_matches_def)
  next
    case (Some raw)
    show ?thesis
    proof (cases "pdf_search raw")
      case False
      with Some show ?thesis using Cons by (simp add: keeps_def href_matches_def)
    next
      case True
      then have "strip U raw \<noteq> []" by (rule pdf_search_strip)
      with True Some show ?thesis
        using Cons by (simp add: keeps_def href_matches_def link_of_def Let_def)
    qed
  qed
qed

lemma get_links_requested:
  "requested (snd (get_pdf_links_for_court_and_date E d court w))
     = requested w @ [(DELHI_CAUSELIST_URL, 10)]"
  by (auto simp: get_pdf_links_for_court_and_date_def safe_request_def Let_def
      split: http_outcome.splits option.splits)

subsection \<open>Downloads\<close>

lemma download_pdf_None:
  "(case http_get E (length (requested w)) u 20 of
      Responded r \<Rightarrow> \<not> (status_code r = 200 \<and> length (content r) > 1000)
    | _ \<Rightarrow> True)
   \<Longrightarrow> download_pdf E u fname w = (None, w\<lparr>requested := requested w @ [(u, 20)]\<rparr>)"
  by (auto simp: download_pdf_def safe_request_def Let_def split: http_outcome.splits)

lemma download_pdf_eq:
  "download_pdf E u fname w =
     (if delivered E (length (requested w)) u fname
      then (Some (os_path_join (lit ''downloaded_pdfs'') fname),
            w\<lparr>requested := requested w @ [(u, 20)],
              files := (files w)(os_path_join (lit ''downloaded_pdfs'') fname
                          \<mapsto> (case http_get E (length (requested w)) u 20 of Responded r \<Rightarrow> content r | _ \<Rightarrow> []))\<rparr>)
      else (None, w\<lparr>requested := requested w @ [(u, 20)]\<rparr>))"
  by (auto simp: download_pdf_def safe_request_def delivered_def Let_def response_ok_def
      raises_for_status_def split: http_outcome.splits)

lemma download_pdf_files:
  "files (snd (download_pdf E u fname w)) p \<noteq> files w p
     \<Longrightarrow> p = os_path_join (lit ''downloaded_pdfs'') fname"
  by (auto simp: download_pdf_eq split: if_splits)

lemma os_path_join_nonempty: "os_path_join (lit ''downloaded_pdfs'') f \<noteq> []"
  by (cases f) (auto simp: os_path_join_def lit_def)

lemma causelist_path:
  "os_path_join (lit ''downloaded_pdfs'') (causelist_filename U c j ds)
     = lit ''downloaded_pdfs/'' @ causelist_filename U c j ds"
  by (simp add: os_path_join_def causelist_filename_def lit_def)

lemma zip_upt_Cons:
  "zip [n..<n + Suc m] (x # xs) = (n, x) # zip [Suc n..<Suc n + m] xs"
  by (simp add: upt_conv_Cons)

lemma download_loop_eq:
  "download_loop E court ds links acc w =
     (acc @ map (file_record E court ds \<circ> snd)
              (filter (link_delivered E court ds)
                 (zip [length (requested w)..<length (requested w) + length links] links)),
      snd (download_loop E court ds links acc w))
   \<and> requested (snd (download_loop E court ds links acc w))
       = requested w @ map (\<lambda>l. (url l, 20)) links"
proof (induction links arbitrary: acc w)
  case Nil
  show ?case by simp
next
  case (Cons l rest)
  let ?f = "causelist_filename (ucd E) court (pdf_link.judge l) ds"
  let ?w1 = "snd (download_pdf E (url l) ?f w)"
  have len: "length (requested ?w1) = Suc (length (requested w))"
    by (simp add: download_pdf_eq)
  have req: "requested ?w1 = requested w @ [(url l, 20)]"
    by (simp add: download_pdf_eq)
  show ?case
  proof (cases "delivered E (length (requested w)) (url l) ?f")
    case True
    then have step: "download_loop E court ds (l # rest) acc w
        = download_loop E court ds rest (acc @ [file_record E court ds l]) ?w1"
      by (simp add: download_pdf_eq os_path_join_nonempty file_record_def Let_def)
    have hd: "link_delivered E court ds (length (requested w), l)"
      using True by (simp add: link_delivered_def)
    show ?thesis
      unfolding step zip_upt_Cons length_Cons
      using Cons.IH [of "acc @ [file_record E court ds l]" ?w1] hd
      by (simp add: len req)
  next
    case False
    then have step: "download_loop E court ds (l # rest) acc w
        = download_loop E court ds rest acc ?w1"
      by (simp add: download_pdf_eq Let_def)
    have hd: "\<not> link_delivered E court ds (length (requested w), l)"
      using False by (simp add: link_delivered_def)
    show ?thesis
      unfolding step zip_upt_Cons length_Cons
      using Cons.IH [of acc ?w1] hd
      by (simp add: len req)
  qed
qed

lemma download_all_eq:
  "fst (download_all_judges_pdfs E d court w) =
     map (file_record E court (strftime d) \<circ> snd)
       (filter (link_delivered E court (strftime d))
          (zip [Suc (length (requested w))..<
                Suc (length (requested w)) + length (fst (get_pdf_links_for_court_and_date E d court w))]
             (fst (get_pdf_links_for_court_and_date E d court w))))"
proof -
  obtain links w1 where g: "get_pdf_links_for_court_and_date E d court w = (links, w1)"
    by (cases "get_pdf_links_for_court_and_date E d court w")
  have n: "length (requested w1) = Suc (length (requested w))"
    using get_links_requested [of E d court w] g by simp
  show ?thesis
  proof (cases "links = []")
    case True
    then show ?thesis by (simp add: download_all_judges_pdfs_def g)
  next
    case False
    have "fst (download_loop E court (strftime d) links [] w1) =
        map (file_record E court (strftime d) \<circ> snd)
          (filter (link_delivered E court (strftime d))
             (zip [length (requested w1)..<length (requested w1) + length links] links))"
      using download_loop_eq [of E court "strftime d" links "[]" w1]
      by (metis append_Nil fst_conv)
    with False show ?thesis by (simp add: download_all_judges_pdfs_def g n)
  qed
qed

lemma download_all_member:
  assumes "f \<in> set (fst (download_all_judges_pdfs E d court w))"
  shows "\<exists>l. f = file_record E court (strftime d) l"
proof -
  from assms obtain kl where "f = (file_record E court (strftime d) \<circ> snd) kl"
    unfolding download_all_eq by auto
  then show ?thesis by auto
qed

section \<open>File names\<close>

text \<open>
  C1, as the specification states it, fails: the file name holds the display name of the
  court complex, not its slug. In the sample run for \<open>Tis Hazari Court\<close> on 05-04-2025
  the three files are named \<open>CauseList_Tis Hazari Court_...\<close>, where the specification has
  \<open>CauseList_tis-hazari_...\<close>.
\<close>

theorem filename_is_not_slug_based:
  "map_of DELHI_COURTS (lit ''Tis Hazari Court'') = Some (lit ''tis-hazari'')
   \<and> map judge (fst (download_all_judges_pdfs (example_env 200) example_date (lit ''Tis Hazari Court'') empty_world))
      = [lit ''Tis Hazari Court - Judge A'', lit ''TIS HAZARI COURT: Judge B'', lit ''Judge D,tis hazari court'']
   \<and> map filename (fst (download_all_judges_pdfs (example_env 200) example_date (lit ''Tis Hazari Court'') empty_world))
      = [lit ''CauseList_Tis Hazari Court_Tis Hazari Court - Judge A_05-04-2025.pdf'',
         lit ''CauseList_Tis Hazari Court_TIS HAZARI COURT Judge B_05-04-2025.pdf'',
         lit ''CauseList_Tis Hazari Court_Judge Dtis hazari court_05-04-2025.pdf'']
   \<and> spec_filename ascii_db (lit ''Tis Hazari Court'') (lit ''Tis Hazari Court - Judge A'') (strftime example_date)
      = lit ''CauseList_tis-hazari_Tis Hazari Court - Judge A_05-04-2025.pdf''
   \<and> lit ''CauseList_Tis Hazari Court_Tis Hazari Court - Judge A_05-04-2025.pdf''
      \<noteq> lit ''CauseList_tis-hazari_Tis Hazari Court - Judge A_05-04-2025.pdf''"
  by (simp add: eval_defs run_defs spec_filename_def DELHI_COURTS_def)

text \<open>
  C1, amended: every downloaded file is named
  \<open>CauseList_{court_complex}_{sanitized_judge_first_40_chars}_{DD-MM-YYYY}.pdf\<close>, where
  \<open>court_complex\<close> is the selected display name itself; selecting
  \<open>Tis Hazari Court\<close> with the date 05-04-2025 and three successful downloads yields
  exactly three records, named
  \<open>CauseList_Tis Hazari Court_<judge>_05-04-2025.pdf\<close>.
\<close>

theorem filename_uses_display_name:
  "(\<forall>f \<in> set (fst (download_all_judges_pdfs E d court w)).
      filename f = lit ''CauseList_'' @ court @ lit ''_'' @ take 40 (re_sub_unsafe (ucd E) (judge f))
                     @ lit ''_'' @ strftime d @ lit ''.pdf'')
   \<and> strftime \<lparr>year = 2025, month = 4, day = 5\<rparr> = lit ''05-04-2025''
   \<and> map filename (fst (download_all_judges_pdfs (example_env 200)
         \<lparr>year = 2025, month = 4, day = 5\<rparr> (lit ''Tis Hazari Court'') empty_world))
       = [lit ''CauseList_Tis Hazari Court_Tis Hazari Court - Judge A_05-04-2025.pdf'',
          lit ''CauseList_Tis Hazari Court_TIS HAZARI COURT Judge B_05-04-2025.pdf'',
          lit ''CauseList_Tis Hazari Court_Judge Dtis hazari court_05-04-2025.pdf'']"
proof -
  have a: "filename f = lit ''CauseList_'' @ court @ lit ''_'' @ take 40 (re_sub_unsafe (ucd E) (judge f))
                     @ lit ''_'' @ strftime d @ lit ''.pdf''"
    if "f \<in> set (fst (download_all_judges_pdfs E d court w))" for f
  proof -
    from that obtain l where "f = file_record E court (strftime d) l"
      using download_all_member by blast
    then show ?thesis
      by (simp add: file_record_def causelist_filename_def safe_judge_def)
  qed
  have b: "strftime \<lparr>year = 2025, month = 4, day = 5\<rparr> = lit ''05-04-2025''"
    by (simp add: strftime_def zfill_def lit_def)
  have c: "map filename (fst (download_all_judges_pdfs (example_env 200)
         \<lparr>year = 2025, month = 4, day = 5\<rparr> (lit ''Tis Hazari Court'') empty_world))
       = [lit ''CauseList_Tis Hazari Court_Tis Hazari Court - Judge A_05-04-2025.pdf'',
          lit ''CauseList_Tis Hazari Court_TIS HAZARI COURT Judge B_05-04-2025.pdf'',
          lit ''CauseList_Tis Hazari Court_Judge Dtis hazari court_05-04-2025.pdf'']"
    by (simp add: eval_defs run_defs)
  from a b c show ?thesis by blast
qed

theorem filename_uses_display_name_witness:
  "set (fst (download_all_judges_pdfs (example_env 200) example_date (lit ''Tis Hazari Court'') empty_world)) \<noteq> {}
   \<and> filename (hd (fst (download_all_judges_pdfs (example_env 200) example_date (lit ''Tis Hazari Court'') empty_world)))
      = lit ''CauseList_Tis Hazari Court_Tis Hazari Court - Judge A_05-04-2025.pdf''"
proof -
  let ?run = "fst (download_all_judges_pdfs (example_env 200) example_date (lit ''Tis Hazari Court'') empty_world)"
  have j: "map judge ?run
      = [lit ''Tis Hazari Court - Judge A'', lit ''TIS HAZARI COURT: Judge B'', lit ''Judge D,tis hazari court'']"
    by (simp add: eval_defs run_defs)
  then have ne: "?run \<noteq> []" by auto
  then have m: "hd ?run \<in> set ?run" by simp
  have jh: "judge (hd ?run) = lit ''Tis Hazari Court - Judge A''"
    using j ne by (cases ?run) auto
  from filename_uses_display_name [of "example_env 200" example_date "lit ''Tis Hazari Court''" empty_world] m
  have "filename (hd ?run) = lit ''CauseList_'' @ lit ''Tis Hazari Court'' @ lit ''_''
          @ take 40 (re_sub_unsafe (ucd (example_env 200)) (judge (hd ?run)))
          @ lit ''_'' @ strftime example_date @ lit ''.pdf''"
    by blast
  then have "filename (hd ?run) = lit ''CauseList_Tis Hazari Court_Tis Hazari Court - Judge A_05-04-2025.pdf''"
    unfolding jh by (simp add: example_env_def strftime_example lit_def class_defs ascii_db_def)
  with ne show ?thesis by simp
qed

text \<open>
  C2, as the specification states it, fails: the underscore is neither alphanumeric nor
  whitespace nor the hyphen, and sanitisation keeps it, since \<open>\w\<close> matches it.
\<close>

theorem sanitize_keeps_underscore:
  "safe_judge ascii_db (lit ''A_B'') = lit ''A_B'' \<and> \<not> isalnum ascii_db 95 \<and> \<not> isspace ascii_db 95 \<and> (95::nat) \<noteq> 45"
  by (simp add: safe_judge_def lit_def class_defs)

text \<open>
  C2, amended: sanitisation keeps, in order, exactly the code points that are
  alphanumeric, the underscore, whitespace or the hyphen, deletes every other one, and
  then truncates to at most 40 code points; the label \<open>Justice A/B (Court-5)\<close> becomes
  \<open>Justice AB Court-5\<close>.
\<close>

theorem safe_judge_spec:
  "safe_judge U s = take 40 (filter (\<lambda>c. isalnum U c \<or> c = 95 \<or> isspace U c \<or> c = 45) s)
   \<and> length (safe_judge U s) \<le> 40
   \<and> (\<forall>c \<in> set (safe_judge U s). isalnum U c \<or> c = 95 \<or> isspace U c \<or> c = 45)
   \<and> safe_judge U (lit ''Justice A/B (Court-5)'') = lit ''Justice AB Court-5''"
proof -
  have eq: "safe_judge U s = take 40 (filter (\<lambda>c. isalnum U c \<or> c = 95 \<or> isspace U c \<or> c = 45) s)"
    by (simp add: safe_judge_def re_sub_unsafe_def unsafe_class_def re_word_def)
  have len: "length (safe_judge U s) \<le> 40"
    by (simp add: safe_judge_def)
  have mem: "\<forall>c \<in> set (safe_judge U s). isalnum U c \<or> c = 95 \<or> isspace U c \<or> c = 45"
    unfolding eq using set_take_subset [of 40] by fastforce
  have ex: "safe_judge U (lit ''Justice A/B (Court-5)'') = lit ''Justice AB Court-5''"
    by (simp add: safe_judge_def lit_def class_defs)
  from eq len mem ex show ?thesis by blast
qed

theorem safe_judge_spec_witness:
  "safe_judge ascii_db (lit ''a.b_c d-e'') = lit ''ab_c d-e''
   \<and> set (safe_judge ascii_db (lit ''a.b_c d-e'')) \<noteq> {}
   \<and> length (safe_judge ascii_db (lit ''a.b_c d-e'')) \<le> 40"
  using safe_judge_spec [of ascii_db "lit ''a.b_c d-e''"]
  by (simp add: lit_def class_defs)

text \<open>
  C10: the sanitised judge label holds no slash, no backslash and no dot. For a court
  complex of the selector the whole file name holds no slash, so the path written is
  \<open>downloaded_pdfs/\<close> followed by the file name, and a download changes no other path.
\<close>

theorem sanitised_name_stays_in_directory:
  "47 \<notin> set (safe_judge U j) \<and> 92 \<notin> set (safe_judge U j) \<and> 46 \<notin> set (safe_judge U j)
   \<and> (court \<in> fst ` set DELHI_COURTS \<longrightarrow>
        47 \<notin> set (causelist_filename U court j (strftime d))
        \<and> os_path_join (lit ''downloaded_pdfs'') (causelist_filename U court j (strftime d))
            = lit ''downloaded_pdfs/'' @ causelist_filename U court j (strftime d)
        \<and> (\<forall>p. files (snd (download_pdf E u (causelist_filename U court j (strftime d)) w)) p \<noteq> files w p
              \<longrightarrow> p = lit ''downloaded_pdfs/'' @ causelist_filename U court j (strftime d)))"
proof -
  have slash: "47 \<notin> set (causelist_filename U court j (strftime d))"
    if "court \<in> fst ` set DELHI_COURTS"
  proof -
    have "47 \<notin> set court" using that by (rule court_no_slash)
    moreover have "47 \<notin> set (safe_judge U j)" using safe_judge_no_separator by blast
    moreover have "47 \<notin> set (strftime d)" using strftime_chars [of 47 d] by auto
    ultimately show ?thesis by (simp add: causelist_filename_def lit_def)
  qed
  have wr: "p = lit ''downloaded_pdfs/'' @ causelist_filename U court j (strftime d)"
    if "files (snd (download_pdf E u (causelist_filename U court j (strftime d)) w)) p \<noteq> files w p" for p
    using download_pdf_files [OF that] by (simp add: causelist_path)
  from safe_judge_no_separator [of U j] slash causelist_path [of U court j "strftime d"] wr
  show ?thesis by blast
qed

theorem sanitised_name_stays_in_directory_witness:
  "lit ''Tis Hazari Court'' \<in> fst ` set DELHI_COURTS
   \<and> safe_judge ascii_db (lit ''../../etc/passwd'') = lit ''etcpasswd''
   \<and> causelist_filename ascii_db (lit ''Tis Hazari Court'') (lit ''../../etc/passwd'') (strftime example_date)
       = lit ''CauseList_Tis Hazari Court_etcpasswd_05-04-2025.pdf''
   \<and> 47 \<notin> set (causelist_filename ascii_db (lit ''Tis Hazari Court'') (lit ''../../etc/passwd'') (strftime example_date))
   \<and> os_path_join (lit ''downloaded_pdfs'')
        (causelist_filename ascii_db (lit ''Tis Hazari Court'') (lit ''../../etc/passwd'') (strftime example_date))
       = lit ''downloaded_pdfs/CauseList_Tis Hazari Court_etcpasswd_05-04-2025.pdf''"
proof -
  have h: "lit ''Tis Hazari Court'' \<in> fst ` set DELHI_COURTS"
    by (simp add: DELHI_COURTS_def)
  have s: "safe_judge ascii_db (lit ''../../etc/passwd'') = lit ''etcpasswd''"
    by (simp add: safe_judge_def lit_def class_defs)
  have n: "causelist_filename ascii_db (lit ''Tis Hazari Court'') (lit ''../../etc/passwd'') (strftime example_date)
       = lit ''CauseList_Tis Hazari Court_etcpasswd_05-04-2025.pdf''"
    by (simp add: causelist_filename_def s strftime_example) (simp add: lit_def)
  from sanitised_name_stays_in_directory
         [of ascii_db "lit ''../../etc/passwd''" "lit ''Tis Hazari Court''" example_date "example_env 200"
             "lit ''http://h/a.pdf''" empty_world] h
  have "47 \<notin> set (causelist_filename ascii_db (lit ''Tis Hazari Court'') (lit ''../../etc/passwd'') (strftime example_date))
     \<and> os_path_join (lit ''downloaded_pdfs'')
        (causelist_filename ascii_db (lit ''Tis Hazari Court'') (lit ''../../etc/passwd'') (strftime example_date))
        = lit ''downloaded_pdfs/'' @ causelist_filename ascii_db (lit ''Tis Hazari Court'') (lit ''../../etc/passwd'') (strftime example_date)"
    by blast
  with h s n show ?thesis by (simp add: lit_def)
qed

section \<open>Link discovery\<close>

text \<open>
  C3: for a non-empty court-complex string, the links discovered are, in page order, those
  of exactly the anchors whose href matches the \<open>.pdf\<close> pattern, whose visible text is not
  empty and whose lower-cased text contains the lower-cased court-complex string; so it is
  for the result of the whole operation when the page is fetched and parsed. Containing
  means occurring as a contiguous run.
\<close>

theorem link_discovery_filter:
  assumes "court \<noteq> []"
  shows "collect_pdf_links U court anchors []
           = map (link_of U)
               (filter (\<lambda>a. href_matches a \<and> get_text U a \<noteq> []
                             \<and> py_in (lower U court) (lower U (get_text U a))) anchors)
         \<and> (\<forall>r. http_get E (length (requested w)) DELHI_CAUSELIST_URL 10 = Responded r
                 \<and> \<not> raises_for_status r \<and> find_all_a E (content r) = Some anchors \<longrightarrow>
               fst (get_pdf_links_for_court_and_date E d court w)
                 = map (link_of (ucd E))
                     (filter (\<lambda>a. href_matches a \<and> get_text (ucd E) a \<noteq> []
                         \<and> py_in (lower (ucd E) court) (lower (ucd E) (get_text (ucd E) a))) anchors))
         \<and> (\<forall>text. py_in (lower U court) text
               \<longleftrightarrow> (\<exists>before after. text = before @ lower U court @ after))"
proof -
  have k: "keeps V court = (\<lambda>a. href_matches a \<and> get_text V a \<noteq> []
                             \<and> py_in (lower V court) (lower V (get_text V a)))" for V
    by (rule ext) (simp add: keeps_def)
  have a: "collect_pdf_links V court anchors []
           = map (link_of V)
               (filter (\<lambda>a. href_matches a \<and> get_text V a \<noteq> []
                             \<and> py_in (lower V court) (lower V (get_text V a))) anchors)" for V
    using collect_pdf_links_eq [OF assms, of V anchors "[]"] by (simp add: k)
  have b: "fst (get_pdf_links_for_court_and_date E d court w)
                 = map (link_of (ucd E))
                     (filter (\<lambda>a. href_matches a \<and> get_text (ucd E) a \<noteq> []
                         \<and> py_in (lower (ucd E) court) (lower (ucd E) (get_text (ucd E) a))) anchors)"
    if "http_get E (length (requested w)) DELHI_CAUSELIST_URL 10 = Responded r"
       "\<not> raises_for_status r" "find_all_a E (content r) = Some anchors" for r
    using that a [of "ucd E"]
    by (simp add: get_pdf_links_for_court_and_date_def safe_request_def response_ok_def Let_def)
  from a [of U] b py_in_iff show ?thesis by blast
qed

theorem link_discovery_filter_witness:
  "lit ''Tis Hazari Court'' \<noteq> []
   \<and> map pdf_link.judge (collect_pdf_links ascii_db (lit ''Tis Hazari Court'') example_page [])
      = [lit ''Tis Hazari Court - Judge A'', lit ''TIS HAZARI COURT: Judge B'', lit ''Judge D,tis hazari court'']
   \<and> map pdf_link.judge (map (link_of ascii_db)
               (filter (\<lambda>a. href_matches a \<and> get_text ascii_db a \<noteq> []
                   \<and> py_in (lower ascii_db (lit ''Tis Hazari Court'')) (lower ascii_db (get_text ascii_db a))) example_page))
      = [lit ''Tis Hazari Court - Judge A'', lit ''TIS HAZARI COURT: Judge B'', lit ''Judge D,tis hazari court'']"
proof -
  have h: "lit ''Tis Hazari Court'' \<noteq> []"
    by (simp add: lit_def)
  have eq: "collect_pdf_links ascii_db (lit ''Tis Hazari Court'') example_page []
      = map (link_of ascii_db)
               (filter (\<lambda>a. href_matches a \<and> get_text ascii_db a \<noteq> []
                   \<and> py_in (lower ascii_db (lit ''Tis Hazari Court'')) (lower ascii_db (get_text ascii_db a))) example_page)"
    using link_discovery_filter [OF h, of ascii_db example_page "example_env 200" empty_world example_date]
    by (rule conjunct1)
  have "map pdf_link.judge (collect_pdf_links ascii_db (lit ''Tis Hazari Court'') example_page [])
      = [lit ''Tis Hazari Court - Judge A'', lit ''TIS HAZARI COURT: Judge B'', lit ''Judge D,tis hazari court'']"
    by (simp add: eval_defs)
  with h eq show ?thesis by simp
qed




text \<open>
  C7, as the specification states it, fails: a response with status 300 is not a 2xx
  response, \<open>raise_for_status\<close> does not raise on it, and its body is parsed; on the sample
  page three links are returned.
\<close>

theorem redirect_status_is_parsed:
  "\<not> (200 \<le> (300::int) \<and> (300::int) < 300)
   \<and> http_get (example_env 300) (length (requested empty_world)) DELHI_CAUSELIST_URL 10
       = Responded \<lparr>status_code = 300, content = pdf_body\<rparr>
   \<and> map url (fst (get_pdf_links_for_court_and_date (example_env 300) example_date (lit ''Tis Hazari Court'') empty_world))
       = [lit ''https://newdelhi.dcourts.gov.in/docs/j1.pdf'',
          lit ''https://newdelhi.dcourts.gov.in/docs/j2.PDF'',
          lit ''http://cdn.example/j3.pdf'']"
  by (simp add: eval_defs)

text \<open>
  C7, amended: when the fetch of the cause-list page fails with a transport error, a
  timeout or a status from 400 to 599, link discovery returns the empty list, and so does
  the batch download built on it.
\<close>

theorem failed_fetch_gives_no_links:
  assumes "http_get E (length (requested w)) DELHI_CAUSELIST_URL 10 = out"
    and "out = ConnectionError \<or> out = Timeout
         \<or> (\<exists>r. out = Responded r \<and> 400 \<le> status_code r \<and> status_code r < 600)"
  shows "fst (get_pdf_links_for_court_and_date E d court_complex w) = []
         \<and> fst (download_all_judges_pdfs E d court_complex w) = []"
proof -
  have "safe_request E DELHI_CAUSELIST_URL 10 w
          = (None, w\<lparr>requested := requested w @ [(DELHI_CAUSELIST_URL, 10)]\<rparr>)"
    using assms by (auto simp: safe_request_def Let_def raises_for_status_def)
  then have "get_pdf_links_for_court_and_date E d court_complex w
          = ([], w\<lparr>requested := requested w @ [(DELHI_CAUSELIST_URL, 10)]\<rparr>)"
    by (simp add: get_pdf_links_for_court_and_date_def)
  then show ?thesis
    by (simp add: download_all_judges_pdfs_def)
qed

theorem failed_fetch_gives_no_links_witness:
  "http_get (example_env 404) (length (requested empty_world)) DELHI_CAUSELIST_URL 10
     = Responded \<lparr>status_code = 404, content = pdf_body\<rparr>
   \<and> fst (get_pdf_links_for_court_and_date (example_env 404) example_date (lit ''Tis Hazari Court'') empty_world) = []
   \<and> fst (download_all_judges_pdfs (example_env 404) example_date (lit ''Tis Hazari Court'') empty_world) = []"
  using failed_fetch_gives_no_links [of "example_env 404" empty_world
      "Responded \<lparr>status_code = 404, content = pdf_body\<rparr>" example_date "lit ''Tis Hazari Court''"]
  by (simp add: example_env_def)

text \<open>
  C8: link discovery does not depend on the date. For any two dates it returns the same
  links and leaves the same state, the request sent included.
\<close>

theorem date_is_not_used:
  "get_pdf_links_for_court_and_date E d1 court_complex w
     = get_pdf_links_for_court_and_date E d2 court_complex w"
  by (simp add: get_pdf_links_for_court_and_date_def)

theorem date_is_not_used_witness:
  "get_pdf_links_for_court_and_date (example_env 200) example_date (lit ''Tis Hazari Court'') empty_world
     = get_pdf_links_for_court_and_date (example_env 200) \<lparr>year = 2026, month = 1, day = 31\<rparr>
         (lit ''Tis Hazari Court'') empty_world"
  by (rule date_is_not_used)

section \<open>Downloads\<close>

text \<open>
  C5: a response whose body has fewer than 1000 bytes gives no file path, whatever its
  status; no file is written, and the batch loop appends no record for the link.
\<close>

theorem undersized_body_rejected:
  assumes "http_get E (length (requested w)) u 20 = Responded r"
    and "length (content r) < 1000"
  shows "fst (download_pdf E u fname w) = None
         \<and> files (snd (download_pdf E u fname w)) = files w
         \<and> fst (download_loop E court ds [\<lparr>name = n, url = u, pdf_link.judge = j\<rparr>] acc w) = acc"
proof -
  have "download_pdf E u f w = (None, w\<lparr>requested := requested w @ [(u, 20)]\<rparr>)" for f
    using assms by (intro download_pdf_None) simp
  then show ?thesis by simp
qed

theorem undersized_body_rejected_witness:
  "http_get (small_env 999) (length (requested empty_world)) (lit ''http://h/a.pdf'') 20
     = Responded \<lparr>status_code = 200, content = replicate 999 0\<rparr>
   \<and> length (content \<lparr>status_code = 200, content = replicate 999 (0 :: 8 word)\<rparr>) < 1000
   \<and> fst (download_pdf (small_env 999) (lit ''http://h/a.pdf'') (lit ''f.pdf'') empty_world) = None
   \<and> files (snd (download_pdf (small_env 999) (lit ''http://h/a.pdf'') (lit ''f.pdf'') empty_world))
       = files empty_world"
  using undersized_body_rejected [of "small_env 999" empty_world "lit ''http://h/a.pdf''"
      "\<lparr>status_code = 200, content = replicate 999 0\<rparr>" "lit ''f.pdf''"]
  by (simp add: small_env_def example_env_def empty_world_def)

text \<open>
  C6: a failed download does not end the batch. The loop sends one request for every
  link, in link order, and returns the records of exactly the delivered links, in link
  order, after the records it started with; the same holds of the whole operation on the
  links discovered.
\<close>

theorem batch_survives_failures:
  "fst (download_loop E court ds links acc w) =
     acc @ map (file_record E court ds \<circ> snd)
             (filter (link_delivered E court ds)
                (zip [length (requested w)..<length (requested w) + length links] links))
   \<and> requested (snd (download_loop E court ds links acc w))
       = requested w @ map (\<lambda>l. (url l, 20)) links
   \<and> fst (download_all_judges_pdfs E d court w) =
       map (file_record E court (strftime d) \<circ> snd)
         (filter (link_delivered E court (strftime d))
            (zip [Suc (length (requested w))..<
                  Suc (length (requested w)) + length (fst (get_pdf_links_for_court_and_date E d court w))]
               (fst (get_pdf_links_for_court_and_date E d court w))))"
proof -
  have a: "fst (download_loop E court ds links acc w) =
     acc @ map (file_record E court ds \<circ> snd)
             (filter (link_delivered E court ds)
                (zip [length (requested w)..<length (requested w) + length links] links))"
    using download_loop_eq [of E court ds links acc w] by (metis fst_conv)
  have b: "requested (snd (download_loop E court ds links acc w))
       = requested w @ map (\<lambda>l. (url l, 20)) links"
    using download_loop_eq [of E court ds links acc w] by blast
  from a b download_all_eq [of E d court w] show ?thesis by blast
qed

theorem batch_survives_failures_witness:
  "map filename (fst (download_all_judges_pdfs flaky_env example_date (lit ''Tis Hazari Court'') empty_world))
     = [lit ''CauseList_Tis Hazari Court_Tis Hazari Court - Judge A_05-04-2025.pdf'',
        lit ''CauseList_Tis Hazari Court_Judge Dtis hazari court_05-04-2025.pdf'']"
  using batch_survives_failures [of flaky_env "lit ''Tis Hazari Court''" "strftime example_date" "[]" "[]" empty_world example_date]
  by (simp add: flaky_env_def eval_defs link_delivered_def delivered_def file_record_def run_defs)

text \<open>
  C9: the size threshold is strict. A file path is returned only for a response with
  status 200 and more than 1000 bytes; a body of exactly 1000 bytes gives no path, no file
  and no record, and a body of 1001 bytes with status 200 is stored when the file can be
  written.
\<close>

theorem size_threshold_is_strict:
  "(fst (download_pdf E u fname w) \<noteq> None \<longrightarrow>
      (\<exists>r. http_get E (length (requested w)) u 20 = Responded r
           \<and> status_code r = 200 \<and> length (content r) > 1000))
   \<and> (\<forall>r. http_get E (length (requested w)) u 20 = Responded r \<and> length (content r) = 1000 \<longrightarrow>
        fst (download_pdf E u fname w) = None
        \<and> files (snd (download_pdf E u fname w)) = files w
        \<and> fst (download_loop E court ds [\<lparr>name = n, url = u, pdf_link.judge = j\<rparr>] acc w) = acc)
   \<and> (\<forall>r. http_get E (length (requested w)) u 20 = Responded r \<and> status_code r = 200
          \<and> length (content r) = 1001
          \<and> write_ok E (Suc (length (requested w))) (os_path_join (lit ''downloaded_pdfs'') fname) \<longrightarrow>
        fst (download_pdf E u fname w) = Some (os_path_join (lit ''downloaded_pdfs'') fname))"
proof -
  have a: "fst (download_pdf E u fname w) \<noteq> None \<longrightarrow>
      (\<exists>r. http_get E (length (requested w)) u 20 = Responded r
           \<and> status_code r = 200 \<and> length (content r) > 1000)"
    by (auto simp: download_pdf_eq delivered_def split: http_outcome.splits if_splits)
  have b: "fst (download_pdf E u fname w) = None
        \<and> files (snd (download_pdf E u fname w)) = files w
        \<and> fst (download_loop E court ds [\<lparr>name = n, url = u, pdf_link.judge = j\<rparr>] acc w) = acc"
    if "http_get E (length (requested w)) u 20 = Responded r" "length (content r) = 1000" for r
  proof -
    have "download_pdf E u f w = (None, w\<lparr>requested := requested w @ [(u, 20)]\<rparr>)" for f
      using that by (intro download_pdf_None) simp
    then show ?thesis by simp
  qed
  have c: "fst (download_pdf E u fname w) = Some (os_path_join (lit ''downloaded_pdfs'') fname)"
    if "http_get E (length (requested w)) u 20 = Responded r" "status_code r = 200"
       "length (content r) = 1001"
       "write_ok E (Suc (length (requested w))) (os_path_join (lit ''downloaded_pdfs'') fname)" for r
    using that by (simp add: download_pdf_eq delivered_def)
  from a b c show ?thesis by blast
qed

theorem size_threshold_is_strict_witness:
  "http_get (small_env 1000) (length (requested empty_world)) (lit ''http://h/a.pdf'') 20
     = Responded \<lparr>status_code = 200, content = replicate 1000 0\<rparr>
   \<and> fst (download_pdf (small_env 1000) (lit ''http://h/a.pdf'') (lit ''f.pdf'') empty_world) = None
   \<and> http_get (small_env 1001) (length (requested empty_world)) (lit ''http://h/a.pdf'') 20
     = Responded \<lparr>status_code = 200, content = replicate 1001 0\<rparr>
   \<and> fst (download_pdf (small_env 1001) (lit ''http://h/a.pdf'') (lit ''f.pdf'') empty_world)
       = Some (lit ''downloaded_pdfs/f.pdf'')"
  using size_threshold_is_strict [of "small_env 1000" "lit ''http://h/a.pdf''" "lit ''f.pdf''" empty_world]
    size_threshold_is_strict [of "small_env 1001" "lit ''http://h/a.pdf''" "lit ''f.pdf''" empty_world]
  by (simp add: small_env_def example_env_def empty_world_def os_path_join_def lit_def)

end
